theory Spec2Isabelle
  imports Complex_Main "HOL-Library.Log_Nat"
begin

section \<open>Geometry primitives (src/src/main.ts, classes Point, Vector, Line)\<close>

text \<open>
  The scene's numbers are JavaScript numbers, that is IEEE 754 doubles. The program is
  modelled twice. This first part reads it in exact arithmetic, over the reals: it serves
  the claims that are worded in exact arithmetic, or in which only the values are rounded
  (the control points, the back face, where the hull starts and how its loop ends). The
  second part (sections on double precision below) computes as the code does, with every
  operation rounded, and serves the claims that depend on which branch is taken: whether
  intersectWith throws, which vertices the hull keeps, what Box.draw fills.
\<close>

record Point =
  x :: real
  y :: real

text \<open>Class Vector has fields x and y as well; they are called dx and dy here.\<close>

record Vector =
  dx :: real
  dy :: real

definition vectorFrom :: "Point \<Rightarrow> Point \<Rightarrow> Vector" where
  "vectorFrom this other = \<lparr>dx = x this - x other, dy = y this - y other\<rparr>"

definition plus :: "Point \<Rightarrow> Vector \<Rightarrow> Point" where
  "plus this v = \<lparr>x = x this + dx v, y = y this + dy v\<rparr>"

definition minus :: "Point \<Rightarrow> Vector \<Rightarrow> Point" where
  "minus this other = \<lparr>x = x this - dx other, y = y this - dy other\<rparr>"

definition times :: "Vector \<Rightarrow> real \<Rightarrow> Vector" where
  "times this m = \<lparr>dx = dx this * m, dy = dy this * m\<rparr>"

definition vlength :: "Vector \<Rightarrow> real" where
  "vlength this = sqrt (dx this * dx this + dy this * dy this)"

text \<open>Class Line; begin and end are called beginPt and endPt.\<close>

record Line =
  beginPt :: Point
  endPt :: Point
  stopAtBegin :: bool
  stopAtEnd :: bool

datatype ControlPointType = VANISHING_POINT | BOX_POINT_1 | BOX_POINT_2 | LIGHT | LIGHT_DROP

text \<open>The three \<open>throw new Error(...)\<close> of the geometry and control-point code.\<close>

datatype error =
    ParallelLines               \<comment> \<open>"Lines are parallel"\<close>
  | TooFewPoints                \<comment> \<open>"Convex hull needs at least three points"\<close>
  | NotFound ControlPointType   \<comment> \<open>"ControlPointType ... not found"\<close>


text \<open>Vocabulary of the claims: a line's direction vector and the 2D cross product.\<close>

definition direction :: "Line \<Rightarrow> Vector" where
  "direction l = vectorFrom (endPt l) (beginPt l)"

definition cross :: "Vector \<Rightarrow> Vector \<Rightarrow> real" where
  "cross u v = dx u * dy v - dy u * dx v"


section \<open>Convex hull (functions isOnLeftOf and convexHull)\<close>

text \<open>
  isOnLeftOf compares its arguments with \<open>===\<close>, which on objects is identity, not
  equality of coordinates. An array of points is therefore a list of references into a
  store of Point objects: two positions of the array hold the same object exactly when
  they hold the same reference.
\<close>

type_synonym ref = nat
type_synonym store = "ref \<Rightarrow> Point"

definition isOnLeftOf :: "store \<Rightarrow> ref \<Rightarrow> ref \<Rightarrow> ref \<Rightarrow> bool" where
  "isOnLeftOf h p1 p2 p =
     (if p1 = p2 \<or> p = p1 \<or> p = p2 then False
      else (let a = vectorFrom (h p2) (h p1);
                b = vectorFrom (h p) (h p1)
            in dx a * dy b - dx b * dy a > 0))"

text \<open>The first loop: the index of the left-most point, \<open>for i = 1 .. length - 1\<close>.\<close>

definition leftmost :: "store \<Rightarrow> ref list \<Rightarrow> nat" where
  "leftmost h s =
     fold (\<lambda>i l. if x (h (s ! i)) < x (h (s ! l)) then i else l) [1..<length s] 0"

text \<open>The inner loop of the wrap: from \<open>q = (p + 1) % length\<close>, \<open>for i = 0 .. length - 1\<close>.\<close>

definition nextVertex :: "store \<Rightarrow> ref list \<Rightarrow> nat \<Rightarrow> nat" where
  "nextVertex h s p =
     fold (\<lambda>i q. if isOnLeftOf h (s ! p) (s ! q) (s ! i) then i else q)
          [0..<length s] ((p + 1) mod length s)"

text \<open>
  The do-while loop, \<open>do { ... } while (p !== l && --max > 0)\<close>, on the state
  (p, max, hull), called (p, maxi, hullv) here. It returns the final p together with
  the hull, so that the way the loop ended (back at l, or out of iterations) can be told
  apart.
\<close>

function wrap :: "store \<Rightarrow> ref list \<Rightarrow> nat \<Rightarrow> nat \<Rightarrow> nat \<Rightarrow> ref list \<Rightarrow> nat \<times> ref list" where
  "wrap h s l p maxi hullv =
     (let hullv' = hullv @ [s ! p];
          q = nextVertex h s p
      in if q \<noteq> l \<and> maxi - 1 > 0 then wrap h s l q (maxi - 1) hullv' else (q, hullv'))"
  by pat_completeness auto
termination
  by (relation "measure (\<lambda>(h, s, l, p, maxi, hullv). maxi)") auto

declare wrap.simps [simp del]

definition convexHull :: "store \<Rightarrow> ref list \<Rightarrow> error + ref list" where
  "convexHull h s =
     (if length s < 3 then Inl TooFewPoints
      else Inr (snd (wrap h s (leftmost h s) (leftmost h s) (length s + 1) [])))"

text \<open>Vocabulary of the hull claims.\<close>

definition orient :: "Point \<Rightarrow> Point \<Rightarrow> Point \<Rightarrow> real" where
  "orient a b c = cross (vectorFrom b a) (vectorFrom c a)"

definition wrapClosed :: "store \<Rightarrow> ref list \<Rightarrow> bool" where
  "wrapClosed h s =
     (fst (wrap h s (leftmost h s) (leftmost h s) (length s + 1) []) = leftmost h s)"






section \<open>Double-precision arithmetic\<close>

text \<open>
  A double is a finite value, an infinity or NaN. The two zeros are one value here: the
  code compares with \<open>===\<close> and \<open><\<close>, which do not tell them apart, and it never divides
  by a zero (the test \<open>denom === 0\<close> comes first).

  \<open>rnd\<close> rounds an exact result to the nearest double, the even one at a tie: for
  2^e <= |r| < 2^(e+1) the last place is 2^q with q = max (e - 52) (-1074), and a rounded
  magnitude of 2^1024 or more is an infinity.
\<close>

datatype num = Fin real | PInf | NInf | NaN

definition expo :: "real \<Rightarrow> int" where
  "expo a = (if 1 \<le> a then bitlen \<lfloor>a\<rfloor> - 1 else - bitlen (\<lceil>1 / a\<rceil> - 1))"

definition rnd :: "real \<Rightarrow> num" where
  "rnd r =
     (if r = 0 then Fin 0
      else (let a = \<bar>r\<bar>;
                q = max (expo a - 52) (- 1074);
                m = a / 2 powi q;
                f = \<lfloor>m\<rfloor>;
                n = (if m - of_int f < 1 / 2 then f
                     else if 1 / 2 < m - of_int f then f + 1
                     else if even f then f else f + 1);
                v = of_int n * 2 powi q
            in if 2 ^ 1024 \<le> v then (if 0 < r then PInf else NInf)
               else Fin (if 0 < r then v else - v)))"

fun fneg :: "num \<Rightarrow> num" where
  "fneg (Fin a) = Fin (- a)"
| "fneg PInf = NInf"
| "fneg NInf = PInf"
| "fneg NaN = NaN"

fun fadd :: "num \<Rightarrow> num \<Rightarrow> num" where
  "fadd NaN b = NaN"
| "fadd a NaN = NaN"
| "fadd PInf NInf = NaN"
| "fadd NInf PInf = NaN"
| "fadd PInf b = PInf"
| "fadd a PInf = PInf"
| "fadd NInf b = NInf"
| "fadd a NInf = NInf"
| "fadd (Fin a) (Fin b) = rnd (a + b)"

definition fsub :: "num \<Rightarrow> num \<Rightarrow> num" where
  "fsub a b = fadd a (fneg b)"

fun fmul :: "num \<Rightarrow> num \<Rightarrow> num" where
  "fmul NaN b = NaN"
| "fmul a NaN = NaN"
| "fmul (Fin a) (Fin b) = rnd (a * b)"
| "fmul (Fin a) PInf = (if a = 0 then NaN else if 0 < a then PInf else NInf)"
| "fmul (Fin a) NInf = (if a = 0 then NaN else if 0 < a then NInf else PInf)"
| "fmul PInf (Fin b) = (if b = 0 then NaN else if 0 < b then PInf else NInf)"
| "fmul NInf (Fin b) = (if b = 0 then NaN else if 0 < b then NInf else PInf)"
| "fmul PInf PInf = PInf"
| "fmul PInf NInf = NInf"
| "fmul NInf PInf = NInf"
| "fmul NInf NInf = PInf"

text \<open>Division; a zero divisor is taken as +0 (the code does not reach this case).\<close>

fun fdiv :: "num \<Rightarrow> num \<Rightarrow> num" where
  "fdiv NaN b = NaN"
| "fdiv a NaN = NaN"
| "fdiv (Fin a) (Fin b) =
     (if b = 0 then (if a = 0 then NaN else if 0 < a then PInf else NInf) else rnd (a / b))"
| "fdiv (Fin a) PInf = Fin 0"
| "fdiv (Fin a) NInf = Fin 0"
| "fdiv PInf (Fin b) = (if 0 \<le> b then PInf else NInf)"
| "fdiv NInf (Fin b) = (if 0 \<le> b then NInf else PInf)"
| "fdiv PInf PInf = NaN"
| "fdiv PInf NInf = NaN"
| "fdiv NInf PInf = NaN"
| "fdiv NInf NInf = NaN"



section \<open>Geometry in double precision (Point, Vector, Line, isOnLeftOf, convexHull)\<close>

text \<open>
  The same classes and functions with the arithmetic of the code; names carry an F.
  \<open>denom === 0\<close> is equality with the one zero, \<open>... > 0\<close> is \<open>flt\<close> from zero.
\<close>

record PointF =
  xF :: num
  yF :: num

record VectorF =
  dxF :: num
  dyF :: num

definition vectorFromF :: "PointF \<Rightarrow> PointF \<Rightarrow> VectorF" where
  "vectorFromF this other = \<lparr>dxF = fsub (xF this) (xF other), dyF = fsub (yF this) (yF other)\<rparr>"

definition plusF :: "PointF \<Rightarrow> VectorF \<Rightarrow> PointF" where
  "plusF this v = \<lparr>xF = fadd (xF this) (dxF v), yF = fadd (yF this) (dyF v)\<rparr>"

definition timesF :: "VectorF \<Rightarrow> num \<Rightarrow> VectorF" where
  "timesF this m = \<lparr>dxF = fmul (dxF this) m, dyF = fmul (dyF this) m\<rparr>"

record LineF =
  beginF :: PointF
  endF :: PointF
  stopAtBeginF :: bool
  stopAtEndF :: bool

definition intersectWithF :: "LineF \<Rightarrow> LineF \<Rightarrow> error + PointF" where
  "intersectWithF this other =
     (let tr = vectorFromF (endF this) (beginF this);
          or = vectorFromF (endF other) (beginF other);
          denom = fsub (fmul (dyF tr) (dxF or)) (fmul (dxF tr) (dyF or))
      in if denom = Fin 0 then Inl ParallelLines
         else (let t = fdiv (fsub (fmul (fsub (xF (beginF this)) (xF (beginF other))) (dyF or))
                                  (fmul (fsub (yF (beginF this)) (yF (beginF other))) (dxF or)))
                            denom
               in Inr (plusF (beginF this) (timesF tr t))))"









text \<open>
  Reading a double-precision input in exact arithmetic, and the inputs on which the
  arithmetic of isOnLeftOf and of the denominator of intersectWith is exact: integer
  coordinates below 2^25 in absolute value (differences stay below 2^26, products below
  2^52, their difference below 2^53).
\<close>

fun val :: "num \<Rightarrow> real" where
  "val (Fin r) = r"
| "val PInf = 0"
| "val NInf = 0"
| "val NaN = 0"

fun isFin :: "num \<Rightarrow> bool" where
  "isFin (Fin r) = True"
| "isFin PInf = False"
| "isFin NInf = False"
| "isFin NaN = False"

fun smallInt :: "num \<Rightarrow> bool" where
  "smallInt (Fin r) = (r = of_int \<lfloor>r\<rfloor> \<and> \<bar>r\<bar> < 2 ^ 25)"
| "smallInt PInf = False"
| "smallInt NInf = False"
| "smallInt NaN = False"

definition exactPoint :: "PointF \<Rightarrow> Point" where
  "exactPoint p = \<lparr>x = val (xF p), y = val (yF p)\<rparr>"

definition exactLine :: "LineF \<Rightarrow> Line" where
  "exactLine l = \<lparr>beginPt = exactPoint (beginF l), endPt = exactPoint (endF l),
                  stopAtBegin = stopAtBeginF l, stopAtEnd = stopAtEndF l\<rparr>"


definition smallIntPoint :: "PointF \<Rightarrow> bool" where
  "smallIntPoint p = (smallInt (xF p) \<and> smallInt (yF p))"

definition smallIntLine :: "LineF \<Rightarrow> bool" where
  "smallIntLine l = (smallIntPoint (beginF l) \<and> smallIntPoint (endF l))"

section \<open>Control points (classes ControlPoint and ControlPoints)\<close>

text \<open>
  ControlPoint extends Point with no field of its own. The Map of ControlPoints keeps its
  insertion order, which select depends on: it is an association list.
\<close>

type_synonym ControlPoint = Point

definition RADIUS :: real where
  "RADIUS = 10"

definition isClickedOn :: "ControlPoint \<Rightarrow> Point \<Rightarrow> bool" where
  "isClickedOn this p = (vlength (vectorFrom p this) \<le> RADIUS)"

definition mapMap :: "('k \<times> 'v) list \<Rightarrow> ('k \<Rightarrow> 'v \<Rightarrow> 'v) \<Rightarrow> ('k \<times> 'v) list" where
  "mapMap m f = map (\<lambda>(k, v). (k, f k v)) m"

definition mapReplace :: "('k \<times> 'v) list \<Rightarrow> 'k \<Rightarrow> ('v \<Rightarrow> 'v) \<Rightarrow> ('k \<times> 'v) list" where
  "mapReplace m replaceKey f = mapMap m (\<lambda>k v. if k = replaceKey then f v else v)"

record ControlPoints =
  points :: "(ControlPointType \<times> ControlPoint) list"
  selected :: "ControlPointType option"
  delta :: "Vector option"

definition get :: "ControlPoints \<Rightarrow> ControlPointType \<Rightarrow> error + ControlPoint" where
  "get this cpt = (case map_of (points this) cpt of None \<Rightarrow> Inl (NotFound cpt) | Some cp \<Rightarrow> Inr cp)"

fun selectFrom :: "(ControlPointType \<times> ControlPoint) list \<Rightarrow> ControlPoints \<Rightarrow> Point \<Rightarrow> ControlPoints" where
  "selectFrom [] this p = \<lparr>points = points this, selected = None, delta = None\<rparr>"
| "selectFrom ((cpt, cp) # rest) this p =
     (if isClickedOn cp p
      then \<lparr>points = points this, selected = Some cpt, delta = Some (vectorFrom p cp)\<rparr>
      else selectFrom rest this p)"

definition select :: "ControlPoints \<Rightarrow> Point \<Rightarrow> ControlPoints" where
  "select this p = selectFrom (points this) this p"

definition moveTo :: "ControlPoints \<Rightarrow> Point \<Rightarrow> ControlPoints" where
  "moveTo this p =
     (case (selected this, delta this) of
        (Some sel, Some d) \<Rightarrow>
          (let newPoint = minus p d;
               newMap = mapReplace (points this) sel (\<lambda>_. newPoint);
               newMap = (if sel = LIGHT
                         then mapReplace newMap LIGHT_DROP (\<lambda>cp. \<lparr>x = x newPoint, y = y cp\<rparr>)
                         else newMap);
               newMap = (if sel = LIGHT_DROP
                         then mapReplace newMap LIGHT (\<lambda>cp. \<lparr>x = x newPoint, y = y cp\<rparr>)
                         else newMap)
           in \<lparr>points = newMap, selected = Some sel, delta = Some d\<rparr>)
      | _ \<Rightarrow> this)"

definition deselect :: "ControlPoints \<Rightarrow> ControlPoints" where
  "deselect this = \<lparr>points = points this, selected = None, delta = None\<rparr>"

section \<open>Scene (classes Box and Config)\<close>

record Box =
  p1 :: Point
  p2 :: Point
  depth :: real

record Config =
  width :: real
  height :: real
  controlPoints :: ControlPoints
  vanishingPoint :: Point
  box :: Box
  light :: Point
  lightDrop :: Point

text \<open>The constructor of Config; each \<open>get\<close> may throw.\<close>

definition newConfig :: "real \<Rightarrow> real \<Rightarrow> ControlPoints \<Rightarrow> error + Config" where
  "newConfig w ht cps =
     (case get cps VANISHING_POINT of Inl e \<Rightarrow> Inl e | Inr vp \<Rightarrow>
      case get cps BOX_POINT_1 of Inl e \<Rightarrow> Inl e | Inr b1 \<Rightarrow>
      case get cps BOX_POINT_2 of Inl e \<Rightarrow> Inl e | Inr b2 \<Rightarrow>
      case get cps LIGHT of Inl e \<Rightarrow> Inl e | Inr lt \<Rightarrow>
      case get cps LIGHT_DROP of Inl e \<Rightarrow> Inl e | Inr ld \<Rightarrow>
        Inr \<lparr>width = w, height = ht, controlPoints = cps, vanishingPoint = vp,
             box = \<lparr>p1 = b1, p2 = b2, depth = 50\<rparr>, light = lt, lightDrop = ld\<rparr>)"

text \<open>The first two point lists of Box.draw.\<close>

definition frontPoints :: "Box \<Rightarrow> Point list" where
  "frontPoints this =
     [p1 this, \<lparr>x = x (p1 this), y = y (p2 this)\<rparr>, p2 this, \<lparr>x = x (p2 this), y = y (p1 this)\<rparr>]"

definition backPoints :: "Box \<Rightarrow> Config \<Rightarrow> Point list" where
  "backPoints this config =
     map (\<lambda>p. plus p (times (vectorFrom (vanishingPoint config) p) 0.3)) (frontPoints this)"

section \<open>Box.draw in double precision\<close>












section \<open>The box construction in the words of the spec\<close>






section \<open>Concrete inputs\<close>

text \<open>The five control points of the spec's concrete scenario.\<close>

definition scene :: "(ControlPointType \<times> ControlPoint) list" where
  "scene = [(VANISHING_POINT, \<lparr>x = 100, y = 100\<rparr>), (BOX_POINT_1, \<lparr>x = 50, y = 150\<rparr>),
            (BOX_POINT_2, \<lparr>x = 150, y = 200\<rparr>), (LIGHT, \<lparr>x = 20, y = 50\<rparr>),
            (LIGHT_DROP, \<lparr>x = 20, y = 180\<rparr>)]"

text \<open>
  An input of convexHull with three points on the vertical line x = 0, and the unit
  square of the spec's scenario.
\<close>

definition fourPoints :: "Point list" where
  "fourPoints = [\<lparr>x = 0, y = 1\<rparr>, \<lparr>x = 0, y = 0\<rparr>, \<lparr>x = 0, y = 2\<rparr>, \<lparr>x = 1, y = 1\<rparr>]"

definition unitSquare :: "Point list" where
  "unitSquare = [\<lparr>x = 0, y = 0\<rparr>, \<lparr>x = 1, y = 0\<rparr>, \<lparr>x = 1, y = 1\<rparr>, \<lparr>x = 0, y = 1\<rparr>]"



text \<open>
  Lines for intersectWith. tieLineA and tieLineB have directions with cross product -2,
  but the product 134217729 * 134217730 is not a double. pointLine has length zero, and
  the direction of wideLine overflows. lineA and lineB are parallel, lineA and lineC are
  not.
\<close>

definition tieLineA :: LineF where
  "tieLineA = \<lparr>beginF = \<lparr>xF = Fin 0, yF = Fin 0\<rparr>, endF = \<lparr>xF = Fin 134217731, yF = Fin 134217729\<rparr>,
               stopAtBeginF = True, stopAtEndF = False\<rparr>"

definition tieLineB :: LineF where
  "tieLineB = \<lparr>beginF = \<lparr>xF = Fin 0, yF = Fin 0\<rparr>, endF = \<lparr>xF = Fin 134217730, yF = Fin 134217728\<rparr>,
               stopAtBeginF = True, stopAtEndF = False\<rparr>"

definition pointLine :: LineF where
  "pointLine = \<lparr>beginF = \<lparr>xF = Fin 3, yF = Fin 4\<rparr>, endF = \<lparr>xF = Fin 3, yF = Fin 4\<rparr>,
                stopAtBeginF = True, stopAtEndF = False\<rparr>"

definition wideLine :: LineF where
  "wideLine = \<lparr>beginF = \<lparr>xF = Fin (- (2 ^ 1023)), yF = Fin 0\<rparr>, endF = \<lparr>xF = Fin (2 ^ 1023), yF = Fin 1\<rparr>,
               stopAtBeginF = True, stopAtEndF = False\<rparr>"

definition lineA :: LineF where
  "lineA = \<lparr>beginF = \<lparr>xF = Fin 0, yF = Fin 0\<rparr>, endF = \<lparr>xF = Fin 1, yF = Fin 2\<rparr>,
            stopAtBeginF = True, stopAtEndF = False\<rparr>"

definition lineB :: LineF where
  "lineB = \<lparr>beginF = \<lparr>xF = Fin 5, yF = Fin 1\<rparr>, endF = \<lparr>xF = Fin 8, yF = Fin 7\<rparr>,
            stopAtBeginF = True, stopAtEndF = False\<rparr>"

definition lineC :: LineF where
  "lineC = \<lparr>beginF = \<lparr>xF = Fin 5, yF = Fin 1\<rparr>, endF = \<lparr>xF = Fin 8, yF = Fin 1\<rparr>,
            stopAtBeginF = True, stopAtEndF = False\<rparr>"



definition sceneControlPoints :: ControlPoints where
  "sceneControlPoints = \<lparr>points = scene, selected = None, delta = None\<rparr>"

definition sceneConfig :: Config where
  "sceneConfig =
     \<lparr>width = 800, height = 600, controlPoints = sceneControlPoints,
      vanishingPoint = \<lparr>x = 100, y = 100\<rparr>,
      box = \<lparr>p1 = \<lparr>x = 50, y = 150\<rparr>, p2 = \<lparr>x = 150, y = 200\<rparr>, depth = 50\<rparr>,
      light = \<lparr>x = 20, y = 50\<rparr>, lightDrop = \<lparr>x = 20, y = 180\<rparr>\<rparr>"

section \<open>Double-precision arithmetic: the exponent and the rounding\<close>

lemma pow2_le_of_int: "(2::int) ^ n \<le> k \<Longrightarrow> (2::real) ^ n \<le> of_int k"
  by (metis of_int_le_iff of_int_power of_int_numeral)

lemma of_int_less_pow2: "k < (2::int) ^ n \<Longrightarrow> of_int k + 1 \<le> (2::real) ^ n"
proof -
  assume "k < (2::int) ^ n"
  then have "k + 1 \<le> 2 ^ n" by simp
  then have "(of_int (k + 1) :: real) \<le> 2 ^ n"
    by (metis of_int_le_iff of_int_power of_int_numeral)
  then show ?thesis by simp
qed

text \<open>\<open>expo a\<close> is the binary exponent of a: 2^(expo a) <= a < 2^(expo a + 1).\<close>

lemma expo_bounds:
  assumes "0 < a"
  shows "2 powi expo a \<le> a \<and> a < 2 powi (expo a + 1)"
proof (cases "1 \<le> a")
  case True
  define n where "n = \<lfloor>a\<rfloor>"
  have n: "0 < n" "of_int n \<le> a" "a < of_int n + 1"
    using True unfolding n_def by (auto simp: floor_less_iff)
  have b1: "1 \<le> bitlen n" using n(1) by (simp add: bitlen_alt_def)
  from bitlen_bounds [OF n(1)] have lo: "2 ^ nat (bitlen n - 1) \<le> n" and hi: "n < 2 ^ nat (bitlen n)"
    by simp_all
  have e: "expo a = bitlen n - 1" using True by (simp add: expo_def n_def)
  have "(2::real) powi (bitlen n - 1) = 2 ^ nat (bitlen n - 1)"
    using b1 by (simp add: power_int_def)
  also have "\<dots> \<le> of_int n" by (rule pow2_le_of_int [OF lo])
  finally have 1: "2 powi (bitlen n - 1) \<le> a" using n(2) by linarith
  have "of_int n + 1 \<le> (2::real) ^ nat (bitlen n)" by (rule of_int_less_pow2 [OF hi])
  moreover have "(2::real) powi (bitlen n - 1 + 1) = 2 ^ nat (bitlen n)"
    using b1 by (simp add: power_int_def)
  ultimately have 2: "a < 2 powi (bitlen n - 1 + 1)" using n(3) by linarith
  show ?thesis unfolding e using 1 2 by simp
next
  case False
  define yv where "yv = 1 / a"
  have y1: "1 < yv" using assms False unfolding yv_def by simp
  define k where "k = \<lceil>yv\<rceil> - 1"
  have k: "0 < k" "of_int k < yv" "yv \<le> of_int k + 1"
    using y1 unfolding k_def by (auto simp: less_ceiling_iff) linarith+
  have b1: "1 \<le> bitlen k" using k(1) by (simp add: bitlen_alt_def)
  from bitlen_bounds [OF k(1)] have lo: "2 ^ nat (bitlen k - 1) \<le> k" and hi: "k < 2 ^ nat (bitlen k)"
    by simp_all
  have e: "expo a = - bitlen k" using False by (simp add: expo_def k_def yv_def)
  have lo': "(2::real) ^ nat (bitlen k - 1) < yv"
    using pow2_le_of_int [OF lo] k(2) by linarith
  have hi': "yv \<le> (2::real) ^ nat (bitlen k)"
    using of_int_less_pow2 [OF hi] k(3) by linarith
  have a_eq: "a = 1 / yv" unfolding yv_def by simp
  have p1: "(2::real) powi (- bitlen k) = 1 / 2 ^ nat (bitlen k)"
    using b1 by (simp add: power_int_def inverse_eq_divide power_inverse [symmetric] field_simps)
  have p2: "(2::real) powi (- bitlen k + 1) = 1 / 2 ^ nat (bitlen k - 1)"
  proof -
    have "- bitlen k + 1 = - (bitlen k - 1)" by simp
    then have "(2::real) powi (- bitlen k + 1) = inverse (2 powi (bitlen k - 1))"
      by (simp only: power_int_minus)
    also have "\<dots> = 1 / 2 ^ nat (bitlen k - 1)"
      using b1 by (simp add: power_int_def inverse_eq_divide)
    finally show ?thesis .
  qed
  have 1: "2 powi (- bitlen k) \<le> a"
    unfolding p1 a_eq using hi' y1 by (simp add: frac_le)
  have 2: "a < 2 powi (- bitlen k + 1)"
    unfolding p2 a_eq using lo' y1 by (simp add: frac_less2)
  show ?thesis unfolding e using 1 2 by simp
qed

lemma expo_unique:
  assumes "0 < a" "2 powi e \<le> a" "a < 2 powi (e + 1)"
  shows "expo a = e"
proof -
  from expo_bounds [OF assms(1)] have b: "2 powi expo a \<le> a" "a < 2 powi (expo a + 1)"
    by simp_all
  have 1: "e < expo a + 1"
  proof (rule ccontr)
    assume "\<not> e < expo a + 1"
    then have "(2::real) powi (expo a + 1) \<le> 2 powi e"
      by (intro power_int_increasing) simp_all
    then show False using assms(2) b(2) by linarith
  qed
  have 2: "expo a < e + 1"
  proof (rule ccontr)
    assume "\<not> expo a < e + 1"
    then have "(2::real) powi (e + 1) \<le> 2 powi expo a"
      by (intro power_int_increasing) simp_all
    then show False using assms(3) b(1) by linarith
  qed
  show ?thesis using 1 2 by simp
qed

lemma rnd_nonzero:
  assumes "r \<noteq> 0"
  shows "rnd r =
     (let a = \<bar>r\<bar>;
          q = max (expo a - 52) (- 1074);
          m = a / 2 powi q;
          f = \<lfloor>m\<rfloor>;
          n = (if m - of_int f < 1 / 2 then f
               else if 1 / 2 < m - of_int f then f + 1
               else if even f then f else f + 1);
          v = of_int n * 2 powi q
      in if 2 ^ 1024 \<le> v then (if 0 < r then PInf else NInf)
         else Fin (if 0 < r then v else - v))"
  using assms by (simp add: rnd_def)

text \<open>A value n * 2^q0 with |n| < 2^53 and q0 >= -1074, below 2^1024, is a double.\<close>

lemma rnd_representable:
  assumes r: "r = of_int n * 2 powi q0" and n: "\<bar>n\<bar> < 2 ^ 53" and q0: "- 1074 \<le> q0"
    and fin: "\<bar>r\<bar> < 2 ^ 1024"
  shows "rnd r = Fin r"
proof (cases "r = 0")
  case True
  then show ?thesis by (simp add: rnd_def)
next
  case False
  define a where "a = \<bar>r\<bar>"
  define q where "q = max (expo a - 52) (- 1074)"
  have a0: "0 < a" using False by (simp add: a_def)
  have a_eq: "a = of_int \<bar>n\<bar> * 2 powi q0"
    unfolding a_def r by (simp add: abs_mult)
  have "of_int \<bar>n\<bar> < (2::real) ^ 53"
  proof -
    have "(of_int \<bar>n\<bar> :: real) < of_int (2 ^ 53)" using n by (simp only: of_int_less_iff)
    then show ?thesis by simp
  qed
  then have "a < 2 ^ 53 * 2 powi q0"
    unfolding a_eq by (simp add: mult_strict_right_mono)
  also have "\<dots> = 2 powi (53 + q0)"
    by (simp add: power_int_add)
  finally have ub: "a < 2 powi (53 + q0)" .
  have "expo a < 53 + q0"
  proof (rule ccontr)
    assume "\<not> expo a < 53 + q0"
    then have "(2::real) powi (53 + q0) \<le> 2 powi expo a"
      by (intro power_int_increasing) simp_all
    then show False using expo_bounds [OF a0] ub by linarith
  qed
  then have qle: "q \<le> q0" using q0 by (simp add: q_def)
  define d where "d = nat (q0 - q)"
  have q0_eq: "q0 = q + int d" using qle by (simp add: d_def)
  have m_eq: "a / 2 powi q = of_int (\<bar>n\<bar> * 2 ^ d)"
    unfolding a_eq q0_eq by (simp add: power_int_add)
  have fl: "\<lfloor>a / 2 powi q\<rfloor> = \<bar>n\<bar> * 2 ^ d"
    unfolding m_eq by (rule floor_of_int)
  have v: "of_int (\<bar>n\<bar> * 2 ^ d) * 2 powi q = a"
    using m_eq by (simp add: field_simps)
  have nov: "\<not> 2 ^ 1024 \<le> a" using fin by (simp add: a_def)
  have "rnd r = Fin (if 0 < r then a else - a)"
    unfolding rnd_nonzero [OF False] Let_def a_def [symmetric] q_def [symmetric] fl
    using m_eq v nov by simp
  then show ?thesis unfolding a_def by (simp add: abs_if)
qed

lemma rnd_int:
  assumes "\<bar>n\<bar> < 2 ^ 53"
  shows "rnd (of_int n) = Fin (of_int n)"
proof (rule rnd_representable [where n = n and ?q0.0 = 0])
  show "of_int n = of_int n * (2::real) powi 0" by simp
  show "\<bar>n\<bar> < 2 ^ 53" by (rule assms)
  show "- 1074 \<le> (0::int)" by simp
  have "(of_int \<bar>n\<bar> :: real) < of_int (2 ^ 53)" using assms by (simp only: of_int_less_iff)
  then have "\<bar>of_int n :: real\<bar> < 2 ^ 53" by simp
  moreover have "(2::real) ^ 53 \<le> 2 ^ 1024" by simp
  ultimately show "\<bar>of_int n :: real\<bar> < 2 ^ 1024" by linarith
qed

lemma int_near:
  assumes "\<bar>(of_int n :: real) - of_int f\<bar> < 1"
  shows "n = f"
proof -
  have "\<bar>(of_int (n - f) :: real)\<bar> < of_int 1" using assms by simp
  then have "\<bar>n - f\<bar> < 1" by (metis of_int_abs of_int_less_iff)
  then show ?thesis by simp
qed

lemma round_choice:
  fixes m :: real
  assumes near: "\<bar>m - of_int n\<bar> < 1 / 2 \<or> (\<bar>m - of_int n\<bar> = 1 / 2 \<and> even n)"
  shows "(if m - of_int \<lfloor>m\<rfloor> < 1 / 2 then \<lfloor>m\<rfloor>
          else if 1 / 2 < m - of_int \<lfloor>m\<rfloor> then \<lfloor>m\<rfloor> + 1
          else if even \<lfloor>m\<rfloor> then \<lfloor>m\<rfloor> else \<lfloor>m\<rfloor> + 1) = n"
proof -
  define f where "f = \<lfloor>m\<rfloor>"
  have f: "of_int f \<le> m" "m < of_int f + 1"
    unfolding f_def by linarith+
  have le: "\<bar>m - of_int n\<bar> \<le> 1 / 2" using near by auto
  show ?thesis
    unfolding f_def [symmetric]
  proof (cases "m - of_int f < 1 / 2")
    case True
    have "\<bar>(of_int n :: real) - of_int f\<bar> < 1"
      using le True f by linarith
    then have "n = f" by (rule int_near)
    then show "(if m - of_int f < 1 / 2 then f
          else if 1 / 2 < m - of_int f then f + 1
          else if even f then f else f + 1) = n"
      using True by simp
  next
    case False
    show "(if m - of_int f < 1 / 2 then f
          else if 1 / 2 < m - of_int f then f + 1
          else if even f then f else f + 1) = n"
    proof (cases "1 / 2 < m - of_int f")
      case True
      have "\<bar>(of_int n :: real) - (of_int f + 1)\<bar> < 1"
        using le True f by linarith
      then have "\<bar>(of_int n :: real) - of_int (f + 1)\<bar> < 1" by simp
      then have "n = f + 1" by (rule int_near)
      then show ?thesis using True False by simp
    next
      case nt: False
      have half: "m = of_int f + 1 / 2" using False nt by linarith
      have nearE: "\<bar>m - of_int n\<bar> = 1 / 2 \<and> even n"
      proof (rule ccontr)
        assume "\<not> ?thesis"
        with near have lt: "\<bar>m - of_int n\<bar> < 1 / 2" by blast
        then have "\<bar>(of_int n :: real) - of_int f\<bar> < 1" using half by linarith
        then have "n = f" by (rule int_near)
        then show False using lt half by simp
      qed
      have "n = f \<or> n = f + 1"
      proof (cases "m - of_int n = 1 / 2")
        case True
        then have "\<bar>(of_int n :: real) - of_int f\<bar> < 1" using half by linarith
        then show ?thesis using int_near by blast
      next
        case False
        then have "m - of_int n = - (1 / 2)" using nearE by linarith
        then have "\<bar>(of_int n :: real) - of_int (f + 1)\<bar> < 1" using half by simp
        then show ?thesis using int_near by blast
      qed
      then show ?thesis using False nt nearE by auto
    qed
  qed
qed

text \<open>
  One rounding, checked from its result: q is the exponent of the last place of |r| and
  n the nearest multiple of 2^q, the even one at a tie.
\<close>

lemma rnd_cert:
  assumes r0: "r \<noteq> 0" and q: "- 1074 \<le> q"
    and lo: "2 powi (q + 52) \<le> \<bar>r\<bar> \<or> q = - 1074" and hi: "\<bar>r\<bar> < 2 powi (q + 53)"
    and near: "\<bar>\<bar>r\<bar> / 2 powi q - of_int n\<bar> < 1 / 2
               \<or> (\<bar>\<bar>r\<bar> / 2 powi q - of_int n\<bar> = 1 / 2 \<and> even n)"
  shows "rnd r = (if (2::real) ^ 1024 \<le> of_int n * 2 powi q then (if 0 < r then PInf else NInf)
                  else Fin (if 0 < r then of_int n * 2 powi q else - (of_int n * 2 powi q)))"
proof -
  define a where "a = \<bar>r\<bar>"
  have a0: "0 < a" using r0 by (simp add: a_def)
  have qq: "max (expo a - 52) (- 1074) = q"
  proof (cases "2 powi (q + 52) \<le> a")
    case True
    have "a < 2 powi (q + 52 + 1)" using hi by (simp add: a_def add.commute add.left_commute)
    then have "expo a = q + 52" by (rule expo_unique [OF a0 True])
    then show ?thesis using q by simp
  next
    case False
    then have q': "q = - 1074" using lo by (simp add: a_def)
    have "expo a < q + 52"
    proof (rule ccontr)
      assume "\<not> expo a < q + 52"
      then have "(2::real) powi (q + 52) \<le> 2 powi expo a"
        by (intro power_int_increasing) simp_all
      then show False using expo_bounds [OF a0] False by linarith
    qed
    then show ?thesis using q' by simp
  qed
  show ?thesis
    unfolding rnd_nonzero [OF r0] Let_def a_def [symmetric] qq
      round_choice [OF near [unfolded a_def [symmetric]]]
    by simp
qed

section \<open>Double-precision arithmetic on small integers\<close>

lemma fsub_Fin: "fsub (Fin a) (Fin b) = rnd (a - b)"
  by (simp add: fsub_def)

lemma smallIntE:
  assumes "smallInt v"
  obtains n :: int where "v = Fin (of_int n)" "\<bar>n\<bar> < 2 ^ 25"
proof (cases v)
  case (Fin r)
  with assms have r: "r = of_int \<lfloor>r\<rfloor>" "\<bar>r\<bar> < 2 ^ 25" by simp_all
  have "\<bar>(of_int \<lfloor>r\<rfloor> :: real)\<bar> < 2 ^ 25" using r by simp
  then have "(of_int \<bar>\<lfloor>r\<rfloor>\<bar> :: real) < of_int (2 ^ 25)" by simp
  then have "\<bar>\<lfloor>r\<rfloor>\<bar> < 2 ^ 25" by (simp only: of_int_less_iff)
  with r(1) Fin show ?thesis using that by blast
qed (use assms in simp_all)

lemma fsub_small:
  assumes "\<bar>a\<bar> < 2 ^ 25" "\<bar>b\<bar> < 2 ^ 25"
  shows "fsub (Fin (of_int a)) (Fin (of_int b)) = Fin (of_int (a - b))" and "\<bar>a - b\<bar> < (2::int) ^ 26"
proof -
  show b: "\<bar>a - b\<bar> < (2::int) ^ 26" using assms by simp
  then have "\<bar>a - b\<bar> < (2::int) ^ 53" by simp
  then have "rnd (of_int (a - b)) = Fin (of_int (a - b))" by (rule rnd_int)
  then show "fsub (Fin (of_int a)) (Fin (of_int b)) = Fin (of_int (a - b))"
    by (simp add: fsub_Fin)
qed

lemma mult_small:
  fixes p q :: int
  assumes "\<bar>p\<bar> < 2 ^ 26" "\<bar>q\<bar> < 2 ^ 26"
  shows "\<bar>p * q\<bar> < 2 ^ 52"
proof -
  have "\<bar>p\<bar> * \<bar>q\<bar> < 2 ^ 26 * 2 ^ 26"
    using assms by (intro mult_strict_mono) simp_all
  then show ?thesis by (simp add: abs_mult)
qed

text \<open>The 2 x 2 determinant of the code, p * q - r * s, on integers below 2^26.\<close>

lemma det_small:
  assumes "\<bar>p\<bar> < 2 ^ 26" "\<bar>q\<bar> < 2 ^ 26" "\<bar>r\<bar> < 2 ^ 26" "\<bar>s\<bar> < 2 ^ 26"
  shows "fsub (fmul (Fin (of_int p)) (Fin (of_int q))) (fmul (Fin (of_int r)) (Fin (of_int s)))
         = Fin (of_int (p * q - r * s))"
proof -
  have pq: "\<bar>p * q\<bar> < 2 ^ 52" by (rule mult_small [OF assms(1,2)])
  have rs: "\<bar>r * s\<bar> < 2 ^ 52" by (rule mult_small [OF assms(3,4)])
  have "\<bar>p * q\<bar> < 2 ^ 53" using pq by simp
  then have m1: "fmul (Fin (of_int p)) (Fin (of_int q)) = Fin (of_int (p * q))"
    using rnd_int [of "p * q"] by simp
  have "\<bar>r * s\<bar> < 2 ^ 53" using rs by simp
  then have m2: "fmul (Fin (of_int r)) (Fin (of_int s)) = Fin (of_int (r * s))"
    using rnd_int [of "r * s"] by simp
  have "\<bar>p * q - r * s\<bar> < 2 ^ 53" using pq rs by simp
  then have "rnd (of_int (p * q - r * s)) = Fin (of_int (p * q - r * s))" by (rule rnd_int)
  then show ?thesis unfolding m1 m2 by (simp add: fsub_Fin)
qed

text \<open>Integer literals below 2^53 are doubles; 2^1024 is not.\<close>

lemma rnd_numeral [simp]:
  "(numeral k :: real) < 2 ^ 53 \<Longrightarrow> rnd (numeral k) = Fin (numeral k)"
  "(numeral k :: real) < 2 ^ 53 \<Longrightarrow> rnd (- numeral k) = Fin (- numeral k)"
  "rnd 0 = Fin 0" "rnd 1 = Fin 1" "rnd (- 1) = Fin (- 1)"
proof -
  have n: "rnd (numeral k) = Fin (numeral k)" if "(numeral k :: real) < 2 ^ 53"
  proof -
    have "(of_int (numeral k) :: real) < of_int (2 ^ 53)" using that by simp
    then have "(numeral k :: int) < 2 ^ 53" by (simp only: of_int_less_iff)
    then have "\<bar>numeral k :: int\<bar> < 2 ^ 53" by simp
    from rnd_int [OF this] show ?thesis by simp
  qed
  have m: "rnd (- numeral k) = Fin (- numeral k)" if "(numeral k :: real) < 2 ^ 53"
  proof -
    have "(of_int (numeral k) :: real) < of_int (2 ^ 53)" using that by simp
    then have "(numeral k :: int) < 2 ^ 53" by (simp only: of_int_less_iff)
    then have "\<bar>- numeral k :: int\<bar> < 2 ^ 53" by simp
    from rnd_int [OF this] show ?thesis by simp
  qed
  show "(numeral k :: real) < 2 ^ 53 \<Longrightarrow> rnd (numeral k) = Fin (numeral k)" by (rule n)
  show "(numeral k :: real) < 2 ^ 53 \<Longrightarrow> rnd (- numeral k) = Fin (- numeral k)" by (rule m)
  show "rnd 0 = Fin 0" by (simp add: rnd_def)
  show "rnd 1 = Fin 1" using rnd_int [of 1] by simp
  show "rnd (- 1) = Fin (- 1)" using rnd_int [of "- 1"] by simp
qed

lemma rnd_overflow: "rnd (2 ^ 1023 + 2 ^ 1023) = PInf"
  using rnd_cert [where r = "2 ^ 1023 + 2 ^ 1023" and q = 972 and n = "2 ^ 52"] by simp

text \<open>NaN is absorbing, and zero times a value is zero only when the value is finite.\<close>

lemma nan_absorb [simp]:
  "fadd NaN w = NaN" "fadd w NaN = NaN" "fsub NaN w = NaN" "fsub w NaN = NaN"
  "fmul w NaN = NaN" "fdiv w NaN = NaN"
  by (cases w; simp add: fsub_def)+

lemma fmul_zero:
  "fmul (Fin 0) v = (if isFin v then Fin 0 else NaN)"
  "fmul v (Fin 0) = (if isFin v then Fin 0 else NaN)"
  by (cases v; simp add: rnd_def)+

section \<open>Line intersection\<close>





section \<open>Line intersection in double precision\<close>

lemma intersectWithF_throws:
  "(intersectWithF a b = Inl ParallelLines) =
     (fsub (fmul (fsub (yF (endF a)) (yF (beginF a))) (fsub (xF (endF b)) (xF (beginF b))))
           (fmul (fsub (xF (endF a)) (xF (beginF a))) (fsub (yF (endF b)) (yF (beginF b)))) = Fin 0)"
  "(\<exists>e. intersectWithF a b = Inl e) = (intersectWithF a b = Inl ParallelLines)"
  by (auto simp: intersectWithF_def vectorFromF_def Let_def)

lemma denom_small:
  assumes a: "smallIntLine a" and b: "smallIntLine b"
  shows "fsub (fmul (fsub (yF (endF a)) (yF (beginF a))) (fsub (xF (endF b)) (xF (beginF b))))
              (fmul (fsub (xF (endF a)) (xF (beginF a))) (fsub (yF (endF b)) (yF (beginF b))))
         = Fin (- cross (direction (exactLine a)) (direction (exactLine b)))"
proof -
  from a obtain ax ay ax' ay' :: int where
    a1: "xF (beginF a) = Fin (of_int ax)" "\<bar>ax\<bar> < 2 ^ 25" and
    a2: "yF (beginF a) = Fin (of_int ay)" "\<bar>ay\<bar> < 2 ^ 25" and
    a3: "xF (endF a) = Fin (of_int ax')" "\<bar>ax'\<bar> < 2 ^ 25" and
    a4: "yF (endF a) = Fin (of_int ay')" "\<bar>ay'\<bar> < 2 ^ 25"
    unfolding smallIntLine_def smallIntPoint_def by (metis smallIntE)
  from b obtain bx "by" bx' by' :: int where
    b1: "xF (beginF b) = Fin (of_int bx)" "\<bar>bx\<bar> < 2 ^ 25" and
    b2: "yF (beginF b) = Fin (of_int by)" "\<bar>by\<bar> < 2 ^ 25" and
    b3: "xF (endF b) = Fin (of_int bx')" "\<bar>bx'\<bar> < 2 ^ 25" and
    b4: "yF (endF b) = Fin (of_int by')" "\<bar>by'\<bar> < 2 ^ 25"
    unfolding smallIntLine_def smallIntPoint_def by (metis smallIntE)
  note s1 = fsub_small [OF a4(2) a2(2)] and s2 = fsub_small [OF b3(2) b1(2)]
    and s3 = fsub_small [OF a3(2) a1(2)] and s4 = fsub_small [OF b4(2) b2(2)]
  have "fsub (fmul (fsub (yF (endF a)) (yF (beginF a))) (fsub (xF (endF b)) (xF (beginF b))))
              (fmul (fsub (xF (endF a)) (xF (beginF a))) (fsub (yF (endF b)) (yF (beginF b))))
        = Fin (of_int ((ay' - ay) * (bx' - bx) - (ax' - ax) * (by' - by)))"
    unfolding a1 a2 a3 a4 b1 b2 b3 b4 s1(1) s2(1) s3(1) s4(1)
    by (rule det_small [OF s1(2) s2(2) s3(2) s4(2)])
  moreover have "cross (direction (exactLine a)) (direction (exactLine b))
        = - of_int ((ay' - ay) * (bx' - bx) - (ax' - ax) * (by' - by))"
    by (simp add: cross_def direction_def exactLine_def exactPoint_def vectorFrom_def
        a1 a2 a3 a4 b1 b2 b3 b4 algebra_simps)
  ultimately show ?thesis by simp
qed

text \<open>
  C3 as stated fails in the arithmetic of the code. The directions of tieLineA and
  tieLineB, (134217731, 134217729) and (134217730, 134217728), have cross product -2,
  but the product 134217729 * 134217730 lies half way between two doubles and is rounded
  to 134217731 * 134217728: the computed denominator is 0 and intersectWith throws.
\<close>

theorem intersectWithF_nonzero_cross_counterexample:
  "intersectWithF tieLineA tieLineB = Inl ParallelLines
   \<and> cross (direction (exactLine tieLineA)) (direction (exactLine tieLineB)) = - 2"
proof -
  have tie: "rnd 18014398912135170 = Fin 18014398912135168"
    using rnd_cert [where r = 18014398912135170 and q = 2 and n = 4503599728033792] by simp
  have "rnd 18014398912135168 = Fin 18014398912135168"
    using rnd_representable [where r = 18014398912135168 and n = 4503599728033792 and ?q0.0 = 2]
    by simp
  with tie have 1: "intersectWithF tieLineA tieLineB = Inl ParallelLines"
    by (simp add: intersectWithF_def tieLineA_def tieLineB_def vectorFromF_def fsub_Fin Let_def)
  have 2: "cross (direction (exactLine tieLineA)) (direction (exactLine tieLineB)) = - 2"
    by (simp add: tieLineA_def tieLineB_def cross_def direction_def exactLine_def exactPoint_def
        vectorFrom_def)
  show ?thesis using 1 2 by simp
qed

text \<open>
  C3, amended. The only error of intersectWith is the parallel-lines error, and it is
  thrown exactly when the denominator computed in double precision,
  tr.y * or.x - tr.x * or.y with each product and the difference rounded, is zero. For
  lines whose coordinates are integers below 2^25 in absolute value this arithmetic is
  exact: the error is thrown exactly when the cross product of the two directions is
  zero, lines with identical or proportional directions always throw, and lines with a
  nonzero cross product always return a point.
\<close>

theorem intersectWithF_error_iff:
  "((\<exists>e. intersectWithF a b = Inl e) \<longleftrightarrow> intersectWithF a b = Inl ParallelLines)
   \<and> (intersectWithF a b = Inl ParallelLines \<longleftrightarrow>
        fsub (fmul (fsub (yF (endF a)) (yF (beginF a))) (fsub (xF (endF b)) (xF (beginF b))))
             (fmul (fsub (xF (endF a)) (xF (beginF a))) (fsub (yF (endF b)) (yF (beginF b)))) = Fin 0)
   \<and> (smallIntLine a \<and> smallIntLine b \<longrightarrow>
        (intersectWithF a b = Inl ParallelLines \<longleftrightarrow>
           cross (direction (exactLine a)) (direction (exactLine b)) = 0)
        \<and> ((direction (exactLine a) = direction (exactLine b)
             \<or> direction (exactLine a) = times (direction (exactLine b)) k
             \<or> direction (exactLine b) = times (direction (exactLine a)) k)
            \<longrightarrow> intersectWithF a b = Inl ParallelLines \<and> (\<forall>pt. intersectWithF a b \<noteq> Inr pt))
        \<and> (cross (direction (exactLine a)) (direction (exactLine b)) \<noteq> 0
            \<longrightarrow> (\<exists>pt. intersectWithF a b = Inr pt) \<and> (\<forall>e. intersectWithF a b \<noteq> Inl e)))"
proof -
  have small: "intersectWithF a b = Inl ParallelLines \<longleftrightarrow>
           cross (direction (exactLine a)) (direction (exactLine b)) = 0"
    if "smallIntLine a \<and> smallIntLine b"
    using that by (simp add: intersectWithF_throws(1) denom_small)
  have par: "cross (direction (exactLine a)) (direction (exactLine b)) = 0"
    if "direction (exactLine a) = direction (exactLine b)
        \<or> direction (exactLine a) = times (direction (exactLine b)) k
        \<or> direction (exactLine b) = times (direction (exactLine a)) k"
    using that by (auto simp: cross_def times_def)
  have cases: "intersectWithF a b = Inl ParallelLines \<or> (\<exists>pt. intersectWithF a b = Inr pt)"
    using intersectWithF_throws(2) [of a b] by (cases "intersectWithF a b") auto
  show ?thesis
    using small par cases intersectWithF_throws [of a b] by auto
qed

theorem intersectWithF_error_iff_witness:
  "intersectWithF lineA lineB = Inl ParallelLines \<and> (\<exists>pt. intersectWithF lineA lineC = Inr pt)"
proof -
  have s: "smallIntLine lineA \<and> smallIntLine lineB \<and> smallIntLine lineC"
    by (simp add: smallIntLine_def smallIntPoint_def lineA_def lineB_def lineC_def)
  have "direction (exactLine lineB) = times (direction (exactLine lineA)) 3"
    by (simp add: lineA_def lineB_def direction_def exactLine_def exactPoint_def
        vectorFrom_def times_def)
  then have 1: "intersectWithF lineA lineB = Inl ParallelLines"
    using intersectWithF_error_iff [of lineA lineB 3] s by blast
  have "cross (direction (exactLine lineA)) (direction (exactLine lineC)) \<noteq> 0"
    by (simp add: lineA_def lineC_def direction_def exactLine_def exactPoint_def
        vectorFrom_def cross_def)
  then have 2: "\<exists>pt. intersectWithF lineA lineC = Inr pt"
    using intersectWithF_error_iff [of lineA lineC 0] s by blast
  show ?thesis using 1 2 by blast
qed

lemma zero_length_direction:
  assumes "beginF a = endF a" "isFin (xF (beginF a))" "isFin (yF (beginF a))"
  shows "vectorFromF (endF a) (beginF a) = \<lparr>dxF = Fin 0, dyF = Fin 0\<rparr>"
proof -
  obtain u v where uv: "xF (beginF a) = Fin u" "yF (beginF a) = Fin v"
    using assms by (cases "xF (beginF a)"; cases "yF (beginF a)") simp_all
  show ?thesis using assms uv by (simp add: vectorFromF_def fsub_Fin rnd_def)
qed

lemma zero_length_finite:
  assumes tr: "vectorFromF (endF a) (beginF a) = \<lparr>dxF = Fin 0, dyF = Fin 0\<rparr>"
    and f: "isFin (dxF (vectorFromF (endF b) (beginF b)))" "isFin (dyF (vectorFromF (endF b) (beginF b)))"
  shows "intersectWithF a b = Inl ParallelLines" "intersectWithF b a = Inl ParallelLines"
  using f by (simp_all add: intersectWithF_def Let_def tr fmul_zero fsub_Fin rnd_def)

lemma zero_length_infinite:
  assumes tr: "vectorFromF (endF a) (beginF a) = \<lparr>dxF = Fin 0, dyF = Fin 0\<rparr>"
    and nf: "\<not> (isFin (dxF (vectorFromF (endF b) (beginF b))) \<and> isFin (dyF (vectorFromF (endF b) (beginF b))))"
  shows "intersectWithF a b = Inr \<lparr>xF = NaN, yF = NaN\<rparr>" "intersectWithF b a = Inr \<lparr>xF = NaN, yF = NaN\<rparr>"
proof -
  define d where "d = vectorFromF (endF b) (beginF b)"
  have den1: "fsub (fmul (Fin 0) (dxF d)) (fmul (Fin 0) (dyF d)) = NaN"
    using nf unfolding d_def [symmetric] by (auto simp: fmul_zero)
  have den2: "fsub (fmul (dyF d) (Fin 0)) (fmul (dxF d) (Fin 0)) = NaN"
    using nf unfolding d_def [symmetric] by (auto simp: fmul_zero)
  show "intersectWithF a b = Inr \<lparr>xF = NaN, yF = NaN\<rparr>"
    by (simp add: intersectWithF_def Let_def tr d_def [symmetric] den1 plusF_def timesF_def)
  show "intersectWithF b a = Inr \<lparr>xF = NaN, yF = NaN\<rparr>"
    by (simp add: intersectWithF_def Let_def tr d_def [symmetric] den2 plusF_def timesF_def)
qed

lemma wideLine_direction:
  "vectorFromF (endF wideLine) (beginF wideLine) = \<lparr>dxF = PInf, dyF = Fin 1\<rparr>"
  using rnd_overflow by (simp add: wideLine_def vectorFromF_def fsub_Fin)

lemma pointLine_direction:
  "vectorFromF (endF pointLine) (beginF pointLine) = \<lparr>dxF = Fin 0, dyF = Fin 0\<rparr>"
  by (rule zero_length_direction) (simp_all add: pointLine_def)

text \<open>
  C10 as stated fails in the arithmetic of the code. pointLine has length zero, and the
  direction of wideLine, from x = -2^1023 to x = 2^1023, overflows to infinity: the
  denominator is 0 * Infinity - 0 * 1 = NaN, which is not 0, and intersectWith returns
  the point (NaN, NaN) in either argument position.
\<close>

theorem intersectWithF_zero_length_counterexample:
  "beginF pointLine = endF pointLine
   \<and> intersectWithF pointLine wideLine = Inr \<lparr>xF = NaN, yF = NaN\<rparr>
   \<and> intersectWithF wideLine pointLine = Inr \<lparr>xF = NaN, yF = NaN\<rparr>"
proof -
  have "\<not> (isFin (dxF (vectorFromF (endF wideLine) (beginF wideLine)))
           \<and> isFin (dyF (vectorFromF (endF wideLine) (beginF wideLine))))"
    by (simp add: wideLine_direction)
  from zero_length_infinite [OF pointLine_direction this] show ?thesis
    by (simp add: pointLine_def)
qed

text \<open>
  C10, amended. For a line whose begin point equals its end point, with finite
  coordinates: when the direction computed for the other line, end - begin, is finite in
  both components, intersectWith throws the parallel-lines error in either argument
  position; when a component of it is infinite or NaN, intersectWith throws nothing and
  returns the point (NaN, NaN) in either argument position.
\<close>

theorem intersectWithF_zero_length:
  "beginF a = endF a \<and> isFin (xF (beginF a)) \<and> isFin (yF (beginF a)) \<longrightarrow>
     ((isFin (dxF (vectorFromF (endF b) (beginF b))) \<and> isFin (dyF (vectorFromF (endF b) (beginF b)))
        \<longrightarrow> intersectWithF a b = Inl ParallelLines \<and> intersectWithF b a = Inl ParallelLines)
      \<and> (\<not> (isFin (dxF (vectorFromF (endF b) (beginF b))) \<and> isFin (dyF (vectorFromF (endF b) (beginF b))))
        \<longrightarrow> intersectWithF a b = Inr \<lparr>xF = NaN, yF = NaN\<rparr>
            \<and> intersectWithF b a = Inr \<lparr>xF = NaN, yF = NaN\<rparr>))"
  using zero_length_direction [of a] zero_length_finite [of a b] zero_length_infinite [of a b]
  by blast

theorem intersectWithF_zero_length_witness:
  "intersectWithF pointLine lineB = Inl ParallelLines \<and> intersectWithF lineB pointLine = Inl ParallelLines
   \<and> intersectWithF pointLine wideLine = Inr \<lparr>xF = NaN, yF = NaN\<rparr>"
proof -
  have p: "beginF pointLine = endF pointLine \<and> isFin (xF (beginF pointLine)) \<and> isFin (yF (beginF pointLine))"
    by (simp add: pointLine_def)
  have b: "isFin (dxF (vectorFromF (endF lineB) (beginF lineB))) \<and> isFin (dyF (vectorFromF (endF lineB) (beginF lineB)))"
    by (simp add: lineB_def vectorFromF_def fsub_Fin)
  have w: "\<not> (isFin (dxF (vectorFromF (endF wideLine) (beginF wideLine)))
             \<and> isFin (dyF (vectorFromF (endF wideLine) (beginF wideLine))))"
    using rnd_overflow by (simp add: wideLine_def vectorFromF_def fsub_Fin)
  show ?thesis
    using intersectWithF_zero_length [of pointLine lineB] intersectWithF_zero_length [of pointLine wideLine]
      p b w by blast
qed

section \<open>Control points: moveTo\<close>

lemma map_of_mapReplace:
  "map_of (mapReplace m k f) j = (if j = k then map_option f (map_of m k) else map_of m j)"
  by (induction m) (auto simp: mapReplace_def mapMap_def)

lemma keys_mapReplace: "map fst (mapReplace m k f) = map fst m"
  by (induction m) (auto simp: mapReplace_def mapMap_def)

lemma get_moveTo:
  assumes "selected this = Some k" and "delta this = Some d"
  shows "get (moveTo this p) j =
     (case get this j of
        Inl e \<Rightarrow> Inl e
      | Inr cp \<Rightarrow>
          Inr (if j = k then minus p d
               else if (k = LIGHT \<and> j = LIGHT_DROP) \<or> (k = LIGHT_DROP \<and> j = LIGHT)
                    then \<lparr>x = x (minus p d), y = y cp\<rparr>
               else cp))"
  using assms
  by (auto simp: get_def moveTo_def Let_def map_of_mapReplace split: option.splits)

text \<open>The spec's scenario: selecting at (20, 50) grasps LIGHT, at (100, 100) the vanishing point.\<close>

lemma isClickedOn_squared:
  "isClickedOn this p = ((x p - x this) * (x p - x this) + (y p - y this) * (y p - y this) \<le> 100)"
proof -
  have "sqrt a \<le> 10 \<longleftrightarrow> a \<le> 100" for a :: real
  proof -
    have "sqrt a \<le> sqrt 100 \<longleftrightarrow> a \<le> 100" by (rule real_sqrt_le_iff)
    moreover have "sqrt 100 = 10"
      using real_sqrt_abs2 [of 10] by simp
    ultimately show ?thesis by simp
  qed
  then show ?thesis
    by (simp add: isClickedOn_def vlength_def RADIUS_def vectorFrom_def)
qed

lemma select_scene_light:
  "select sceneControlPoints \<lparr>x = 20, y = 50\<rparr>
     = \<lparr>points = scene, selected = Some LIGHT, delta = Some \<lparr>dx = 0, dy = 0\<rparr>\<rparr>"
  by (simp add: select_def sceneControlPoints_def scene_def isClickedOn_squared vectorFrom_def)

lemma select_scene_vp:
  "select sceneControlPoints \<lparr>x = 100, y = 100\<rparr>
     = \<lparr>points = scene, selected = Some VANISHING_POINT, delta = Some \<lparr>dx = 0, dy = 0\<rparr>\<rparr>"
  by (simp add: select_def sceneControlPoints_def scene_def isClickedOn_squared vectorFrom_def)

text \<open>
  C2. In a Dragging state (selected and delta both defined) whose selected kind is LIGHT
  or LIGHT_DROP, and in which both points of the pair are present, moveTo returns a state
  with light.x = lightDrop.x, and the partner that was not selected keeps its
  y-coordinate.
\<close>

theorem moveTo_coupling:
  "selected this = Some k \<and> delta this = Some d \<and> (k = LIGHT \<or> k = LIGHT_DROP)
   \<and> get this LIGHT = Inr lt \<and> get this LIGHT_DROP = Inr ld
   \<longrightarrow> (\<exists>lt' ld'. get (moveTo this p) LIGHT = Inr lt' \<and> get (moveTo this p) LIGHT_DROP = Inr ld'
          \<and> x lt' = x ld'
          \<and> (k = LIGHT \<longrightarrow> y ld' = y ld) \<and> (k = LIGHT_DROP \<longrightarrow> y lt' = y lt))"
  by (auto simp: get_moveTo)

theorem moveTo_coupling_witness:
  "get (moveTo (select sceneControlPoints \<lparr>x = 20, y = 50\<rparr>) \<lparr>x = 40, y = 50\<rparr>) LIGHT
     = Inr \<lparr>x = 40, y = 50\<rparr>
   \<and> get (moveTo (select sceneControlPoints \<lparr>x = 20, y = 50\<rparr>) \<lparr>x = 40, y = 50\<rparr>) LIGHT_DROP
     = Inr \<lparr>x = 40, y = 180\<rparr>"
  using moveTo_coupling [of "select sceneControlPoints \<lparr>x = 20, y = 50\<rparr>"
      LIGHT "\<lparr>dx = 0, dy = 0\<rparr>" "\<lparr>x = 20, y = 50\<rparr>" "\<lparr>x = 20, y = 180\<rparr>" "\<lparr>x = 40, y = 50\<rparr>"]
  unfolding select_scene_light
  by (simp add: scene_def get_def moveTo_def mapReplace_def mapMap_def minus_def)

lemma select_scene_vp_offset:
  "select sceneControlPoints \<lparr>x = 103, y = 104\<rparr>
     = \<lparr>points = scene, selected = Some VANISHING_POINT, delta = Some \<lparr>dx = 3, dy = 4\<rparr>\<rparr>"
  by (simp add: select_def sceneControlPoints_def scene_def isClickedOn_squared vectorFrom_def)

text \<open>
  C9. In a Dragging state, moveTo p puts the selected control point at p - delta, that is
  at (p.x - delta.dx, p.y - delta.dy) for the delta stored in the state, keeps the selected
  kind, the delta and the order of the keys, and leaves every control point other than the
  selected one where it was, except the coupled partner of LIGHT or LIGHT_DROP, which
  takes the x-coordinate of the new position and keeps its y-coordinate.
\<close>

theorem moveTo_frame:
  "selected this = Some k \<and> delta this = Some d \<and> get this k = Inr old
   \<longrightarrow> get (moveTo this p) k = Inr \<lparr>x = x p - dx d, y = y p - dy d\<rparr>
       \<and> selected (moveTo this p) = Some k \<and> delta (moveTo this p) = Some d
       \<and> map fst (points (moveTo this p)) = map fst (points this)
       \<and> (\<forall>j. j \<noteq> k \<and> \<not> (k = LIGHT \<and> j = LIGHT_DROP) \<and> \<not> (k = LIGHT_DROP \<and> j = LIGHT)
              \<longrightarrow> get (moveTo this p) j = get this j)
       \<and> (\<forall>j cp. ((k = LIGHT \<and> j = LIGHT_DROP) \<or> (k = LIGHT_DROP \<and> j = LIGHT))
                  \<and> get this j = Inr cp
              \<longrightarrow> get (moveTo this p) j = Inr \<lparr>x = x p - dx d, y = y cp\<rparr>)"
proof
  assume a: "selected this = Some k \<and> delta this = Some d \<and> get this k = Inr old"
  have sel: "selected (moveTo this p) = Some k \<and> delta (moveTo this p) = Some d"
    using a by (simp add: moveTo_def Let_def)
  have keys: "map fst (points (moveTo this p)) = map fst (points this)"
    using a by (simp add: moveTo_def Let_def keys_mapReplace)
  have gets: "get (moveTo this p) k = Inr \<lparr>x = x p - dx d, y = y p - dy d\<rparr>
       \<and> (\<forall>j. j \<noteq> k \<and> \<not> (k = LIGHT \<and> j = LIGHT_DROP) \<and> \<not> (k = LIGHT_DROP \<and> j = LIGHT)
              \<longrightarrow> get (moveTo this p) j = get this j)"
    using a by (auto simp: get_moveTo minus_def split: sum.splits)
  have partner: "\<forall>j cp. ((k = LIGHT \<and> j = LIGHT_DROP) \<or> (k = LIGHT_DROP \<and> j = LIGHT))
                  \<and> get this j = Inr cp
              \<longrightarrow> get (moveTo this p) j = Inr \<lparr>x = x p - dx d, y = y cp\<rparr>"
    using a by (auto simp: get_moveTo minus_def split: sum.splits)
  show "get (moveTo this p) k = Inr \<lparr>x = x p - dx d, y = y p - dy d\<rparr>
       \<and> selected (moveTo this p) = Some k \<and> delta (moveTo this p) = Some d
       \<and> map fst (points (moveTo this p)) = map fst (points this)
       \<and> (\<forall>j. j \<noteq> k \<and> \<not> (k = LIGHT \<and> j = LIGHT_DROP) \<and> \<not> (k = LIGHT_DROP \<and> j = LIGHT)
              \<longrightarrow> get (moveTo this p) j = get this j)
       \<and> (\<forall>j cp. ((k = LIGHT \<and> j = LIGHT_DROP) \<or> (k = LIGHT_DROP \<and> j = LIGHT))
                  \<and> get this j = Inr cp
              \<longrightarrow> get (moveTo this p) j = Inr \<lparr>x = x p - dx d, y = y cp\<rparr>)"
    using sel keys gets partner by blast
qed

text \<open>
  Grasping the vanishing point (100, 100) at (103, 104) stores the delta (3, 4); moving to
  (113, 104) then puts it at (110, 100), and the delta is still (3, 4).
\<close>

theorem moveTo_frame_witness:
  "select sceneControlPoints \<lparr>x = 103, y = 104\<rparr>
     = \<lparr>points = scene, selected = Some VANISHING_POINT, delta = Some \<lparr>dx = 3, dy = 4\<rparr>\<rparr>
   \<and> moveTo (select sceneControlPoints \<lparr>x = 103, y = 104\<rparr>) \<lparr>x = 113, y = 104\<rparr>
     = \<lparr>points = [(VANISHING_POINT, \<lparr>x = 110, y = 100\<rparr>), (BOX_POINT_1, \<lparr>x = 50, y = 150\<rparr>),
                  (BOX_POINT_2, \<lparr>x = 150, y = 200\<rparr>), (LIGHT, \<lparr>x = 20, y = 50\<rparr>),
                  (LIGHT_DROP, \<lparr>x = 20, y = 180\<rparr>)],
        selected = Some VANISHING_POINT, delta = Some \<lparr>dx = 3, dy = 4\<rparr>\<rparr>
   \<and> get (moveTo (select sceneControlPoints \<lparr>x = 103, y = 104\<rparr>) \<lparr>x = 113, y = 104\<rparr>) VANISHING_POINT
     = Inr \<lparr>x = 110, y = 100\<rparr>"
  using moveTo_frame [of "select sceneControlPoints \<lparr>x = 103, y = 104\<rparr>"
      VANISHING_POINT "\<lparr>dx = 3, dy = 4\<rparr>" "\<lparr>x = 100, y = 100\<rparr>" "\<lparr>x = 113, y = 104\<rparr>"]
  unfolding select_scene_vp_offset
  by (simp add: scene_def get_def moveTo_def mapReplace_def mapMap_def minus_def)

section \<open>Box: back face\<close>

lemma lt4: "(\<forall>i<4. P (i::nat)) = (P 0 \<and> P 1 \<and> P 2 \<and> P 3)"
proof -
  have "i < 4 \<longleftrightarrow> i = 0 \<or> i = 1 \<or> i = 2 \<or> i = 3" for i :: nat
    by arith
  then show ?thesis by auto
qed

lemma newConfig_scene: "newConfig 800 600 sceneControlPoints = Inr sceneConfig"
  by (simp add: newConfig_def get_def sceneControlPoints_def scene_def sceneConfig_def)

text \<open>
  C8 as stated fails: the factor is not the Box's depth value. For the scenario's Config,
  whose Box has depth 50 as the constructor of Config sets it, the first back-face vertex
  is (65, 135), not the front vertex moved by 50 times its vector to the vanishing point.
\<close>

theorem backPoints_depth_counterexample:
  "newConfig 800 600 sceneControlPoints = Inr sceneConfig
   \<and> depth (box sceneConfig) = 50
   \<and> backPoints (box sceneConfig) sceneConfig ! 0 = \<lparr>x = 65, y = 135\<rparr>
   \<and> plus (frontPoints (box sceneConfig) ! 0)
        (times (vectorFrom (vanishingPoint sceneConfig) (frontPoints (box sceneConfig) ! 0))
               (depth (box sceneConfig))) = \<lparr>x = 2550, y = -2350\<rparr>
   \<and> backPoints (box sceneConfig) sceneConfig ! 0 \<noteq>
       plus (frontPoints (box sceneConfig) ! 0)
        (times (vectorFrom (vanishingPoint sceneConfig) (frontPoints (box sceneConfig) ! 0))
               (depth (box sceneConfig)))"
  by (simp add: newConfig_scene)
     (simp add: sceneConfig_def backPoints_def frontPoints_def plus_def times_def vectorFrom_def)

text \<open>
  C8, amended. Each back-face vertex is the corresponding front-face vertex p moved by
  0.3 (VP - p), with the constant factor 0.3; the Box's depth field is not read.
\<close>

theorem backPoints_fixed_factor:
  "length (backPoints b cfg) = 4
   \<and> (\<forall>i<4. backPoints b cfg ! i =
         plus (frontPoints b ! i)
              (times (vectorFrom (vanishingPoint cfg) (frontPoints b ! i)) 0.3))
   \<and> backPoints (b\<lparr>depth := d\<rparr>) cfg = backPoints b cfg"
  by (simp add: lt4 backPoints_def frontPoints_def)

theorem backPoints_fixed_factor_witness:
  "backPoints (box sceneConfig) sceneConfig ! 2 = \<lparr>x = 135, y = 170\<rparr>
   \<and> backPoints ((box sceneConfig)\<lparr>depth := 1\<rparr>) sceneConfig = backPoints (box sceneConfig) sceneConfig"
  using backPoints_fixed_factor [of "box sceneConfig" sceneConfig 1]
  by (simp add: lt4) (simp add: sceneConfig_def frontPoints_def plus_def times_def vectorFrom_def)

section \<open>Convex hull\<close>




lemma orient_same [simp]: "orient a a c = 0" "orient a b a = 0" "orient a b b = 0"
  by (simp_all add: orient_def cross_def vectorFrom_def algebra_simps)


text \<open>The left-most loop.\<close>

lemma leftmost_fold:
  "1 \<le> k \<Longrightarrow>
   fold (\<lambda>i l. if x (h (s ! i)) < x (h (s ! l)) then i else l) [1..<k] 0 < k
   \<and> (\<forall>i<k. x (h (s ! fold (\<lambda>i l. if x (h (s ! i)) < x (h (s ! l)) then i else l) [1..<k] 0))
              \<le> x (h (s ! i)))
   \<and> (\<forall>i < fold (\<lambda>i l. if x (h (s ! i)) < x (h (s ! l)) then i else l) [1..<k] 0.
         x (h (s ! fold (\<lambda>i l. if x (h (s ! i)) < x (h (s ! l)) then i else l) [1..<k] 0))
              < x (h (s ! i)))"
proof (induction k)
  case 0
  then show ?case by simp
next
  case (Suc k)
  show ?case
  proof (cases "k = 0")
    case True
    then show ?thesis by simp
  next
    case False
    then have k: "1 \<le> k" by simp
    let ?f = "\<lambda>i l. if x (h (s ! i)) < x (h (s ! l)) then i else l"
    let ?l = "fold ?f [1..<k] 0"
    have IH: "?l < k" "\<forall>i<k. x (h (s ! ?l)) \<le> x (h (s ! i))" "\<forall>i < ?l. x (h (s ! ?l)) < x (h (s ! i))"
      using Suc.IH [OF k] by auto
    have step: "fold ?f [1..<Suc k] 0 = ?f k ?l"
      using k by simp
    show ?thesis
    proof (cases "x (h (s ! k)) < x (h (s ! ?l))")
      case True
      then have eq: "fold ?f [1..<Suc k] 0 = k" using step by simp
      have "\<forall>i<Suc k. x (h (s ! k)) \<le> x (h (s ! i))"
        using True IH(2) by (auto simp: less_Suc_eq)
      moreover have "\<forall>i<k. x (h (s ! k)) < x (h (s ! i))"
      proof (intro allI impI)
        fix i assume "i < k"
        then have "x (h (s ! ?l)) \<le> x (h (s ! i))" using IH(2) by blast
        then show "x (h (s ! k)) < x (h (s ! i))" using True by linarith
      qed
      ultimately show ?thesis unfolding eq by simp
    next
      case False
      then have eq: "fold ?f [1..<Suc k] 0 = ?l" using step by simp
      have "\<forall>i<Suc k. x (h (s ! ?l)) \<le> x (h (s ! i))"
        using False IH(2) by (auto simp: less_Suc_eq)
      then show ?thesis unfolding eq using IH(1,3) by simp
    qed
  qed
qed

lemma leftmost_props:
  assumes "1 \<le> length s"
  shows "leftmost h s < length s"
    and "\<forall>i<length s. x (h (s ! leftmost h s)) \<le> x (h (s ! i))"
    and "\<forall>i<leftmost h s. x (h (s ! leftmost h s)) < x (h (s ! i))"
  using leftmost_fold [OF assms, of h s] unfolding leftmost_def by blast+

text \<open>The do-while loop: what it pushes and how many vertices.\<close>

lemma wrap_prefix:
  "\<exists>rest. snd (wrap h s l p m hv) = hv @ s ! p # rest"
proof (induction h s l p m hv rule: wrap.induct)
  case (1 h s l p maxi hullv)
  show ?case
  proof (cases "nextVertex h s p \<noteq> l \<and> maxi - 1 > 0")
    case True
    then have eq: "wrap h s l p maxi hullv = wrap h s l (nextVertex h s p) (maxi - 1) (hullv @ [s ! p])"
      by (subst wrap.simps) (simp add: Let_def)
    from "1.IH" [OF refl refl True] obtain rest where
      "snd (wrap h s l (nextVertex h s p) (maxi - 1) (hullv @ [s ! p]))
         = (hullv @ [s ! p]) @ s ! nextVertex h s p # rest"
      by blast
    then show ?thesis unfolding eq by simp
  next
    case False
    then have "wrap h s l p maxi hullv = (nextVertex h s p, hullv @ [s ! p])"
      by (subst wrap.simps) (auto simp: Let_def)
    then show ?thesis by simp
  qed
qed

lemma wrap_length:
  "1 \<le> m \<Longrightarrow>
     length (snd (wrap h s l p m hv)) \<le> length hv + m
     \<and> (fst (wrap h s l p m hv) \<noteq> l \<longrightarrow> length (snd (wrap h s l p m hv)) = length hv + m)"
proof (induction h s l p m hv rule: wrap.induct)
  case (1 h s l p maxi hullv)
  show ?case
  proof (cases "nextVertex h s p \<noteq> l \<and> maxi - 1 > 0")
    case True
    then have eq: "wrap h s l p maxi hullv = wrap h s l (nextVertex h s p) (maxi - 1) (hullv @ [s ! p])"
      by (subst wrap.simps) (simp add: Let_def)
    have "1 \<le> maxi - 1" using True by linarith
    from "1.IH" [OF refl refl True this] show ?thesis
      unfolding eq using True by auto
  next
    case False
    then have eq: "wrap h s l p maxi hullv = (nextVertex h s p, hullv @ [s ! p])"
      by (subst wrap.simps) (auto simp: Let_def)
    show ?thesis unfolding eq using False "1.prems" by auto
  qed
qed

text \<open>
  C6. For a list of at least 3 points convexHull returns a non-empty list whose first
  element is the input point of minimum x-coordinate, the first such point in input
  order when several share the minimum.
\<close>

theorem convexHull_starts_leftmost:
  "3 \<le> length s \<longrightarrow>
     (\<exists>hullv l. convexHull h s = Inr hullv \<and> hullv \<noteq> [] \<and> hd hullv = s ! l \<and> l < length s
        \<and> (\<forall>i<length s. x (h (s ! l)) \<le> x (h (s ! i)))
        \<and> (\<forall>i<l. x (h (s ! l)) < x (h (s ! i))))"
proof
  assume len: "3 \<le> length s"
  let ?l = "leftmost h s"
  obtain rest where rest: "snd (wrap h s ?l ?l (length s + 1) []) = [] @ s ! ?l # rest"
    using wrap_prefix [of h s ?l ?l "length s + 1" "[]"] by blast
  have res: "convexHull h s = Inr (s ! ?l # rest)"
    using len rest by (simp add: convexHull_def)
  have "1 \<le> length s" using len by simp
  note lm = leftmost_props [OF this, of h]
  show "\<exists>hullv l. convexHull h s = Inr hullv \<and> hullv \<noteq> [] \<and> hd hullv = s ! l \<and> l < length s
        \<and> (\<forall>i<length s. x (h (s ! l)) \<le> x (h (s ! i)))
        \<and> (\<forall>i<l. x (h (s ! l)) < x (h (s ! i)))"
    using res lm by (intro exI [of _ "s ! ?l # rest"] exI [of _ ?l]) simp
qed

theorem convexHull_starts_leftmost_witness:
  "\<exists>hullv. convexHull (\<lambda>r. unitSquare ! r) [0, 1, 2, 3] = Inr hullv \<and> hullv \<noteq> [] \<and> hd hullv = 0"
proof -
  obtain hullv l where
    a: "convexHull (\<lambda>r. unitSquare ! r) [0, 1, 2, 3] = Inr hullv" "hullv \<noteq> []"
       "hd hullv = [0, 1, 2, 3] ! l" "l < length [0, 1, 2, 3 :: nat]" and
    b: "\<forall>i<l. x (unitSquare ! ([0, 1, 2, 3] ! l)) < x (unitSquare ! ([0, 1, 2, 3] ! i))"
    using convexHull_starts_leftmost [of "[0, 1, 2, 3]" "\<lambda>r. unitSquare ! r"] by auto
  have "l = 0"
  proof (rule ccontr)
    assume "l \<noteq> 0"
    then have "0 < l" by simp
    then have "x (unitSquare ! ([0, 1, 2, 3] ! l)) < x (unitSquare ! ([0, 1, 2, 3] ! 0))"
      using b by blast
    moreover have "l = 1 \<or> l = 2 \<or> l = 3" using a(4) \<open>0 < l\<close> by auto
    ultimately show False by (auto simp: unitSquare_def)
  qed
  then show ?thesis using a by auto
qed

text \<open>
  C7 as stated fails: on fourPoints the wrap does not come back to its start within
  |points| + 1 iterations, and convexHull returns the five vertices collected so far
  instead of reporting an error.
\<close>

theorem convexHull_no_error_counterexample:
  "3 \<le> length [0, 1, 2, 3 :: nat]
   \<and> \<not> wrapClosed (\<lambda>r. fourPoints ! r) [0, 1, 2, 3]
   \<and> convexHull (\<lambda>r. fourPoints ! r) [0, 1, 2, 3] = Inr [0, 3, 1, 2, 3]"
  by code_simp

text \<open>
  C7, amended. For a list of at least 3 points convexHull never reports an error: when
  the wrap does not come back to its start within |points| + 1 iterations, it returns
  the |points| + 1 vertices collected so far.
\<close>

theorem convexHull_never_fails:
  "3 \<le> length s \<longrightarrow>
     (\<exists>hullv. convexHull h s = Inr hullv \<and> length hullv \<le> length s + 1
        \<and> (\<not> wrapClosed h s \<longrightarrow> length hullv = length s + 1))"
proof
  assume len: "3 \<le> length s"
  have "1 \<le> length s + 1" by simp
  from wrap_length [OF this, of h s "leftmost h s" "leftmost h s" "[]"]
  show "\<exists>hullv. convexHull h s = Inr hullv \<and> length hullv \<le> length s + 1
        \<and> (\<not> wrapClosed h s \<longrightarrow> length hullv = length s + 1)"
    using len by (simp add: convexHull_def wrapClosed_def)
qed

theorem convexHull_never_fails_witness:
  "\<exists>hullv. convexHull (\<lambda>r. fourPoints ! r) [0, 1, 2, 3] = Inr hullv \<and> length hullv = 5"
proof -
  have "\<not> wrapClosed (\<lambda>r. fourPoints ! r) [0, 1, 2, 3]" by code_simp
  then show ?thesis
    using convexHull_never_fails [of "[0, 1, 2, 3]" "\<lambda>r. fourPoints ! r"] by auto
qed

section \<open>Convex hull: correctness of the wrap in general position\<close>

























section \<open>The hull in double precision on small integer coordinates\<close>















section \<open>Box.draw: the shadow polygon\<close>





















end
